theory Spec2Isabelle
  imports Complex_Main "HOL-Library.AList"
begin

section \<open>Blue carbon registry: blocks, proof of work, token balances\<close>

text \<open>
  A shallow embedding of \<^verbatim>\<open>Blue_Carbon_Credit.py\<close>: the classes \<^verbatim>\<open>Block\<close>,
  \<^verbatim>\<open>Blockchain\<close> and \<^verbatim>\<open>BlueCarbonToken\<close>. Python's unbounded integers are
  \<open>int\<close>, its floats are binary64 numbers with their rounding, strings are
  \<open>string\<close>, a \<^verbatim>\<open>dict\<close> is an association list in insertion order with distinct
  keys, an exception is a value of \<open>py_error\<close>, and the mining
  loop, which has no bound, is a partial function whose value \<open>None\<close> means that the
  loop never returns.
\<close>

subsection \<open>Values and library functions\<close>

datatype py_error = IndexError | KeyError

text \<open>
  The payloads the program stores (\<^verbatim>\<open>"Genesis Block"\<close> and the records of
  \<^verbatim>\<open>sample_data\<close>) are strings, integers and dictionaries of them.
\<close>

datatype json = JInt int | JStr string | JDict "(string \<times> json) list"

text \<open>
  \<^verbatim>\<open>json.dumps(..., sort_keys=True)\<close> and \<^verbatim>\<open>hashlib.sha256(...).hexdigest()\<close> belong to
  Python's standard library, not to the program. They are parameters of the model:
  every theorem below holds for every pair of such functions.
\<close>

record lib =
  json_dumps :: "json \<Rightarrow> string"
  sha256_hexdigest :: "string \<Rightarrow> string"

subsection \<open>Block\<close>

record block =
  index :: int
  timestamp :: string
  data :: json
  previous_hash :: string
  nonce :: int
  hash :: string

text \<open>\<^verbatim>\<open>Block.compute_hash\<close>: the digest of the serialised dictionary of five fields.\<close>

definition compute_hash :: "lib \<Rightarrow> block \<Rightarrow> string" where
  "compute_hash L self =
     (let block_string = json_dumps L (JDict
        [(''index'', JInt (index self)),
         (''timestamp'', JStr (timestamp self)),
         (''data'', data self),
         (''previous_hash'', JStr (previous_hash self)),
         (''nonce'', JInt (nonce self))])
      in sha256_hexdigest L block_string)"

text \<open>\<^verbatim>\<open>Block.__init__\<close>: stores the fields, then the hash computed from them.\<close>

definition Block :: "lib \<Rightarrow> int \<Rightarrow> string \<Rightarrow> json \<Rightarrow> string \<Rightarrow> int \<Rightarrow> block" where
  "Block L i t d p n =
     (let self = \<lparr>index = i, timestamp = t, data = d, previous_hash = p, nonce = n,
                  hash = []\<rparr>
      in self\<lparr>hash := compute_hash L self\<rparr>)"

subsection \<open>Blockchain\<close>

record blockchain =
  chain :: "block list"

definition difficulty :: nat where
  "difficulty = 2"

text \<open>\<^verbatim>\<open>str.startswith\<close>.\<close>

definition startswith :: "string \<Rightarrow> string \<Rightarrow> bool" where
  "startswith s p = (take (length p) s = p)"

text \<open>\<^verbatim>\<open>'0' * Blockchain.difficulty\<close>.\<close>

definition target :: string where
  "target = replicate difficulty CHR ''0''"

text \<open>
  \<^verbatim>\<open>create_genesis_block\<close> and \<^verbatim>\<open>Blockchain.__init__\<close>. The argument \<open>now\<close> is the
  value of \<^verbatim>\<open>str(datetime.now())\<close> read at the call.
\<close>

definition create_genesis_block :: "lib \<Rightarrow> string \<Rightarrow> blockchain \<Rightarrow> blockchain" where
  "create_genesis_block L now self =
     (let genesis_block = Block L 0 now (JStr ''Genesis Block'') ''0'' 0
      in self\<lparr>chain := chain self @ [genesis_block]\<rparr>)"

definition Blockchain :: "lib \<Rightarrow> string \<Rightarrow> blockchain" where
  "Blockchain L now = create_genesis_block L now \<lparr>chain = []\<rparr>"

text \<open>\<^verbatim>\<open>last_block\<close>: \<^verbatim>\<open>self.chain[-1]\<close> raises \<^verbatim>\<open>IndexError\<close> on an empty list.\<close>

definition last_block :: "blockchain \<Rightarrow> py_error + block" where
  "last_block self = (case chain self of [] \<Rightarrow> Inl IndexError | _ \<Rightarrow> Inr (last (chain self)))"

text \<open>
  The \<^verbatim>\<open>while\<close> loop of \<^verbatim>\<open>proof_of_work\<close>, on the block and the hash computed last.
  It returns the block as the loop leaves it, with the hash.
\<close>

partial_function (option) pow_while :: "lib \<Rightarrow> block \<Rightarrow> string \<Rightarrow> (block \<times> string) option" where
  "pow_while L blk computed_hash =
     (if \<not> startswith computed_hash target
      then pow_while L (blk\<lparr>nonce := nonce blk + 1\<rparr>)
             (compute_hash L (blk\<lparr>nonce := nonce blk + 1\<rparr>))
      else Some (blk, computed_hash))"

declare pow_while.simps [code]

definition proof_of_work :: "lib \<Rightarrow> block \<Rightarrow> (block \<times> string) option" where
  "proof_of_work L blk = pow_while L (blk\<lparr>nonce := 0\<rparr>) (compute_hash L (blk\<lparr>nonce := 0\<rparr>))"

text \<open>
  \<^verbatim>\<open>add_block\<close>: \<open>None\<close> when mining never returns, \<^verbatim>\<open>IndexError\<close> when the chain is
  empty, otherwise the new block and the chain with the block appended.
\<close>

definition add_block :: "lib \<Rightarrow> string \<Rightarrow> json \<Rightarrow> blockchain \<Rightarrow> (py_error + block \<times> blockchain) option" where
  "add_block L now d self =
     (case last_block self of
        Inl e \<Rightarrow> Some (Inl e)
      | Inr lb \<Rightarrow>
          (case proof_of_work L (Block L (index lb + 1) now d (hash lb) 0) of
             None \<Rightarrow> None
           | Some (mined, h) \<Rightarrow>
               (let new_block = mined\<lparr>hash := h\<rparr>
                in Some (Inr (new_block, self\<lparr>chain := chain self @ [new_block]\<rparr>)))))"

text \<open>A sequence of \<^verbatim>\<open>add_block\<close> calls, each with its timestamp and payload.\<close>

fun add_blocks :: "lib \<Rightarrow> blockchain \<Rightarrow> (string \<times> json) list \<Rightarrow> (py_error + blockchain) option" where
  "add_blocks L self [] = Some (Inr self)"
| "add_blocks L self ((now, d) # rest) =
     (case add_block L now d self of
        None \<Rightarrow> None
      | Some (Inl e) \<Rightarrow> Some (Inl e)
      | Some (Inr (_, self')) \<Rightarrow> add_blocks L self' rest)"

subsection \<open>Numbers\<close>

text \<open>
  The program checks the type of no amount: \<^verbatim>\<open>issue\<close> and \<^verbatim>\<open>transfer\<close> apply \<^verbatim>\<open>+\<close>,
  \<^verbatim>\<open>-\<close> and \<^verbatim>\<open>>=\<close> to whatever number they are given. The token ledger below is therefore
  written once, for any type of numbers with these operations, and used at two: Python's
  \<^verbatim>\<open>int\<close>, which is \<open>int\<close>, and Python's \<^verbatim>\<open>float\<close>, which is \<open>double\<close>. In a ledger
  of floats the literal \<^verbatim>\<open>0\<close> of the source is the float zero: Python converts it before
  it adds, and \<^verbatim>\<open>0 + x\<close> is \<open>x\<close>.

  A \<^verbatim>\<open>float\<close> is an IEEE 754 binary64 number: a finite value, given here as the rational
  number it denotes, an infinity or a NaN. The sign of zero is not kept (\<^verbatim>\<open>0.0 == -0.0\<close>
  in Python). A finite binary64 number is \<open>m * 2 ^ q\<close> with \<open>m < 2 ^ 53\<close> and
  \<open>- 1074 \<le> q \<le> 971\<close>.
\<close>

datatype double = Finite rat | PosInf | NegInf | NaN

text \<open>The number of binary digits of a natural number.\<close>

fun bit_length :: "nat \<Rightarrow> nat" where
  "bit_length n = (if n = 0 then 0 else Suc (bit_length (n div 2)))"

declare bit_length.simps [simp del]

text \<open>For \<open>x \<noteq> 0\<close>, the integer \<open>e\<close> with \<open>2 ^ e \<le> \<bar>x\<bar> < 2 ^ (e + 1)\<close>.\<close>

definition exponent :: "rat \<Rightarrow> int" where
  "exponent x =
     (if 1 \<le> \<bar>x\<bar> then int (bit_length (nat \<lfloor>\<bar>x\<bar>\<rfloor>)) - 1
      else - int (bit_length (nat (\<lceil>1 / \<bar>x\<bar>\<rceil> - 1))))"

definition pow2 :: "int \<Rightarrow> rat" where
  "pow2 q = (if 0 \<le> q then 2 ^ nat q else 1 / 2 ^ nat (- q))"

text \<open>Rounding to the nearest integer, a tie to the even one.\<close>

definition round_half_even :: "rat \<Rightarrow> int" where
  "round_half_even x =
     (let f = \<lfloor>x\<rfloor>; r = x - of_int f
      in if r < 1 / 2 then f else if 1 / 2 < r then f + 1 else if even f then f else f + 1)"

text \<open>
  The binary64 number nearest to a rational number, a tie to the even significand: the
  rounding of every arithmetic operation. The spacing of the numbers around \<open>x\<close> is
  \<open>2 ^ q\<close> with \<open>q = exponent x - 52\<close>, and not less than \<open>2 ^ - 1074\<close>; a result of
  \<open>2 ^ 1024\<close> or more is an infinity.
\<close>

definition round_double :: "rat \<Rightarrow> double" where
  "round_double x =
     (if x = 0 then Finite 0
      else let q = max (exponent x - 52) (- 1074);
               v = of_int (round_half_even (\<bar>x\<bar> / pow2 q)) * pow2 q
           in if 2 ^ 1024 \<le> v then (if x < 0 then NegInf else PosInf)
              else Finite (if x < 0 then - v else v))"

text \<open>\<^verbatim>\<open>x + y\<close>, \<^verbatim>\<open>x - y\<close>, \<^verbatim>\<open>x <= y\<close> and \<^verbatim>\<open>x < y\<close> on floats.\<close>

fun double_add :: "double \<Rightarrow> double \<Rightarrow> double" where
  "double_add (Finite a) (Finite b) = round_double (a + b)"
| "double_add NaN y = NaN"
| "double_add x NaN = NaN"
| "double_add PosInf NegInf = NaN"
| "double_add NegInf PosInf = NaN"
| "double_add PosInf y = PosInf"
| "double_add x PosInf = PosInf"
| "double_add NegInf y = NegInf"
| "double_add x NegInf = NegInf"

fun double_neg :: "double \<Rightarrow> double" where
  "double_neg (Finite a) = Finite (- a)"
| "double_neg PosInf = NegInf"
| "double_neg NegInf = PosInf"
| "double_neg NaN = NaN"

fun double_le :: "double \<Rightarrow> double \<Rightarrow> bool" where
  "double_le (Finite a) (Finite b) = (a \<le> b)"
| "double_le NaN y = False"
| "double_le x NaN = False"
| "double_le NegInf y = True"
| "double_le x PosInf = True"
| "double_le x NegInf = False"
| "double_le PosInf y = False"

fun double_less :: "double \<Rightarrow> double \<Rightarrow> bool" where
  "double_less (Finite a) (Finite b) = (a < b)"
| "double_less NaN y = False"
| "double_less x NaN = False"
| "double_less PosInf y = False"
| "double_less x NegInf = False"
| "double_less NegInf y = True"
| "double_less x PosInf = True"

instantiation double :: "{zero, plus, minus, ord}"
begin

definition zero_double :: double where
  "zero_double = Finite 0"

definition plus_double :: "double \<Rightarrow> double \<Rightarrow> double" where
  "plus_double x y = double_add x y"

definition minus_double :: "double \<Rightarrow> double \<Rightarrow> double" where
  "minus_double x y = double_add x (double_neg y)"

definition less_eq_double :: "double \<Rightarrow> double \<Rightarrow> bool" where
  "less_eq_double x y = double_le x y"

definition less_double :: "double \<Rightarrow> double \<Rightarrow> bool" where
  "less_double x y = double_less x y"

instance ..

end

text \<open>\<^verbatim>\<open>sum(xs)\<close>: the elements are added to 0 from left to right.\<close>

definition py_sum :: "'a::{zero, plus} list \<Rightarrow> 'a" where
  "py_sum xs = foldl (+) 0 xs"

subsection \<open>BlueCarbonToken\<close>

text \<open>\<^verbatim>\<open>dict.get\<close>, \<^verbatim>\<open>d[k]\<close> (which raises \<^verbatim>\<open>KeyError\<close>) and \<^verbatim>\<open>d[k] = v\<close>.\<close>

definition dict_get :: "(string \<times> 'a) list \<Rightarrow> string \<Rightarrow> 'a \<Rightarrow> 'a" where
  "dict_get d k dflt = (case map_of d k of None \<Rightarrow> dflt | Some v \<Rightarrow> v)"

definition dict_getitem :: "(string \<times> 'a) list \<Rightarrow> string \<Rightarrow> py_error + 'a" where
  "dict_getitem d k = (case map_of d k of None \<Rightarrow> Inl KeyError | Some v \<Rightarrow> Inr v)"

definition dict_setitem :: "(string \<times> 'a) list \<Rightarrow> string \<Rightarrow> 'a \<Rightarrow> (string \<times> 'a) list" where
  "dict_setitem d k v = AList.update k v d"

record 'a token =
  name :: string
  symbol :: string
  balances :: "(string \<times> 'a) list"
  total_supply :: 'a

definition BlueCarbonToken :: "'a::zero token" where
  "BlueCarbonToken =
     \<lparr>name = ''BlueCarbonToken'', symbol = ''BCT'', balances = [], total_supply = 0\<rparr>"

definition issue :: "'a::{zero, plus} token \<Rightarrow> string \<Rightarrow> 'a \<Rightarrow> 'a token" where
  "issue self user amount =
     (let self1 = self\<lparr>balances :=
            dict_setitem (balances self) user (dict_get (balances self) user 0 + amount)\<rparr>
      in self1\<lparr>total_supply := total_supply self1 + amount\<rparr>)"

text \<open>
  \<^verbatim>\<open>transfer\<close> returns its result, or the exception it raises, with the state it leaves.
  \<^verbatim>\<open>self.balances[sender] -= amount\<close> reads \<^verbatim>\<open>self.balances[sender]\<close> first, and that
  read raises \<^verbatim>\<open>KeyError\<close> before anything is written.
\<close>

definition transfer ::
    "'a::{zero, plus, minus, ord} token \<Rightarrow> string \<Rightarrow> string \<Rightarrow> 'a \<Rightarrow> (py_error + bool) \<times> 'a token" where
  "transfer self sender receiver amount =
     (if dict_get (balances self) sender 0 \<ge> amount then
        (case dict_getitem (balances self) sender of
           Inl e \<Rightarrow> (Inl e, self)
         | Inr v \<Rightarrow>
             (let self1 = self\<lparr>balances := dict_setitem (balances self) sender (v - amount)\<rparr>;
                  self2 = self1\<lparr>balances :=
                    dict_setitem (balances self1) receiver
                      (dict_get (balances self1) receiver 0 + amount)\<rparr>
              in (Inr True, self2)))
      else (Inr False, self))"

text \<open>
  A sequence of operations on one token ledger. A \<^verbatim>\<open>transfer\<close> that raises leaves the
  state as it was, so the states reached are the same whether the caller catches the
  exception or stops there.
\<close>

datatype 'a token_op = Issue string 'a | Transfer string string 'a

fun apply_op :: "'a::{zero, plus, minus, ord} token \<Rightarrow> 'a token_op \<Rightarrow> 'a token" where
  "apply_op self (Issue user amount) = issue self user amount"
| "apply_op self (Transfer sender receiver amount) = snd (transfer self sender receiver amount)"

definition run_ops :: "'a::{zero, plus, minus, ord} token \<Rightarrow> 'a token_op list \<Rightarrow> 'a token" where
  "run_ops self ops = foldl apply_op self ops"


subsection \<open>An instance of the library functions\<close>

text \<open>
  A small stand-in for the two library functions, on which the model can be evaluated:
  the serialisation keeps only the sum of index and nonce, in unary, and the digest
  starts with two zeros exactly when that sum leaves remainder 3 modulo 4. It is used
  only where a theorem is applied to a concrete chain.
\<close>

definition test_lib :: lib where
  "test_lib = \<lparr>json_dumps = (\<lambda>j. case j of
        JDict kvs \<Rightarrow> (case (map_of kvs ''index'', map_of kvs ''nonce'') of
            (Some (JInt i), Some (JInt n)) \<Rightarrow> replicate (nat (i + n)) CHR ''x''
          | _ \<Rightarrow> [])
      | _ \<Rightarrow> []),
     sha256_hexdigest = (\<lambda>s. if length s mod 4 = 3 then ''00c4'' else ''9f3a'')\<rparr>"


section \<open>Token ledger\<close>

lemma dict_get_setitem:
  "dict_get (dict_setitem d k v) k' dflt = (if k' = k then v else dict_get d k' dflt)"
  by (simp add: dict_get_def dict_setitem_def update_conv')

lemma distinct_setitem:
  "distinct (map fst d) \<Longrightarrow> distinct (map fst (dict_setitem d k v))"
  by (simp add: dict_setitem_def distinct_update)

lemma sum_setitem:
  "distinct (map fst d) \<Longrightarrow>
   sum_list (map snd (dict_setitem d k v)) = sum_list (map snd d) - dict_get d k 0 + (v::int)"
proof (induction d)
  case Nil
  then show ?case by (simp add: dict_setitem_def dict_get_def)
next
  case (Cons p d)
  obtain k' v' where p: "p = (k', v')" by (cases p)
  show ?case
  proof (cases "k' = k")
    case True
    with Cons.prems p have "map_of d k = None"
      by (simp add: map_of_eq_None_iff)
    with True p show ?thesis
      by (simp add: dict_setitem_def dict_get_def)
  next
    case False
    with Cons p show ?thesis
      by (simp add: dict_setitem_def dict_get_def)
  qed
qed

lemma getitem_get: "dict_getitem d k = Inr v \<Longrightarrow> dict_get d k dflt = v"
  by (simp add: dict_getitem_def dict_get_def split: option.splits)

lemma issue_distinct:
  "distinct (map fst (balances s)) \<Longrightarrow> distinct (map fst (balances (issue s u a)))"
  by (simp add: issue_def Let_def distinct_setitem)

lemma issue_sum:
  "distinct (map fst (balances s)) \<Longrightarrow>
   sum_list (map snd (balances (issue s u a))) = sum_list (map snd (balances s)) + (a::int)"
  by (simp add: issue_def Let_def sum_setitem)

lemma issue_total: "total_supply (issue s u a) = total_supply s + a"
  by (simp add: issue_def Let_def)

lemma transfer_distinct:
  "distinct (map fst (balances s)) \<Longrightarrow>
   distinct (map fst (balances (snd (transfer s a b n))))"
  by (simp add: transfer_def Let_def distinct_setitem split: sum.splits)

lemma transfer_sum:
  assumes "distinct (map fst (balances s))"
  shows "sum_list (map snd (balances (snd (transfer s a b n)))) =
         sum_list (map snd (balances (s::int token)))"
proof (cases "n \<le> dict_get (balances s) a 0")
  case False
  then show ?thesis by (simp add: transfer_def)
next
  case True
  show ?thesis
  proof (cases "dict_getitem (balances s) a")
    case (Inl e)
    with True show ?thesis by (simp add: transfer_def)
  next
    case (Inr v)
    then have v: "dict_get (balances s) a 0 = v" by (rule getitem_get)
    from assms have d: "distinct (map fst (dict_setitem (balances s) a (v - n)))"
      by (rule distinct_setitem)
    from True Inr show ?thesis
      by (simp add: transfer_def Let_def sum_setitem [OF d] sum_setitem [OF assms]
          dict_get_setitem v)
  qed
qed

lemma transfer_total: "total_supply (snd (transfer s a b n)) = total_supply s"
  by (simp add: transfer_def Let_def split: sum.splits)

lemma apply_op_inv:
  assumes "distinct (map fst (balances s))"
    and "total_supply s = sum_list (map snd (balances (s::int token)))"
  shows "distinct (map fst (balances (apply_op s x))) \<and>
         total_supply (apply_op s x) = sum_list (map snd (balances (apply_op s x)))"
  using assms
  by (cases x) (simp_all add: issue_distinct issue_sum issue_total
      transfer_distinct transfer_sum transfer_total)

lemma run_ops_inv:
  "distinct (map fst (balances s)) \<Longrightarrow>
   total_supply s = sum_list (map snd (balances (s::int token))) \<Longrightarrow>
   distinct (map fst (balances (run_ops s ops))) \<and>
   total_supply (run_ops s ops) = sum_list (map snd (balances (run_ops s ops)))"
  unfolding run_ops_def
proof (induction ops arbitrary: s)
  case Nil
  then show ?case by simp
next
  case (Cons x ops)
  from apply_op_inv [OF Cons.prems] Cons.IH [of "apply_op s x"]
  show ?case by simp
qed

text \<open>Python's \<^verbatim>\<open>sum\<close> on integers is the sum of the list.\<close>

lemma foldl_plus_int: "foldl (+) a xs = (a::int) + sum_list xs"
  by (induction xs arbitrary: a) simp_all

lemma py_sum_int: "py_sum xs = sum_list (xs::int list)"
  by (simp add: py_sum_def foldl_plus_int)

text \<open>
  Claim C3, amended. Starting from a freshly constructed \<^verbatim>\<open>BlueCarbonToken\<close> (no
  balances, total supply 0), after every sequence of \<^verbatim>\<open>issue\<close> and \<^verbatim>\<open>transfer\<close>
  operations whose amounts are integers, the total supply equals
  \<^verbatim>\<open>sum(balances.values())\<close>.
\<close>

theorem total_supply_is_sum_of_balances:
  "total_supply (run_ops (BlueCarbonToken :: int token) ops) =
   py_sum (map snd (balances (run_ops (BlueCarbonToken :: int token) ops)))"
  using run_ops_inv [of BlueCarbonToken ops] by (simp add: BlueCarbonToken_def py_sum_int)

text \<open>
  The additions of the float ledger below, each evaluated from the definition of
  rounding. \<open>10000000000000001\<close> lies halfway between the binary64 numbers
  \<open>10000000000000000\<close> and \<open>10000000000000002\<close>, and the tie goes to the first, whose
  significand is even.
\<close>

lemmas round_double_eval =
  round_double_def exponent_def pow2_def round_half_even_def bit_length.simps Let_def

lemma floor_tie: "\<lfloor>10000000000000001 / 2 :: rat\<rfloor> = 5000000000000000"
  by (rule floor_unique) simp_all

lemma double_0_plus_1e16: "(0::double) + Finite 10000000000000000 = Finite 10000000000000000"
  by (simp add: zero_double_def plus_double_def round_double_eval)

lemma double_1e16_plus_1: "Finite 10000000000000000 + Finite 1 = Finite 10000000000000000"
  by (simp add: plus_double_def round_double_eval floor_tie)

lemma double_0_plus_1: "(0::double) + Finite 1 = Finite 1"
  by (simp add: zero_double_def plus_double_def round_double_eval)

lemma double_1_plus_1: "Finite 1 + Finite 1 = Finite 2"
  by (simp add: plus_double_def round_double_eval)

lemma double_1e16_plus_2: "Finite 10000000000000000 + Finite 2 = Finite 10000000000000002"
  by (simp add: plus_double_def round_double_eval)

text \<open>
  \<^verbatim>\<open>issue("a", 1e16); issue("b", 1.0); issue("b", 1.0)\<close> on a fresh ledger.
\<close>

lemma float_ledger:
  "run_ops BlueCarbonToken
     [Issue ''a'' (Finite 10000000000000000), Issue ''b'' (Finite 1), Issue ''b'' (Finite 1)] =
   \<lparr>name = ''BlueCarbonToken'', symbol = ''BCT'',
      balances = [(''a'', Finite 10000000000000000), (''b'', Finite 2)],
      total_supply = Finite 10000000000000000\<rparr>"
  by (simp add: run_ops_def issue_def BlueCarbonToken_def dict_get_def dict_setitem_def
      double_0_plus_1e16 double_1e16_plus_1 double_0_plus_1 double_1_plus_1)

text \<open>
  Claim C3 as stated allows any amount the code accepts. With float amounts each
  addition rounds: after the three calls above \<^verbatim>\<open>total_supply\<close> is \<^verbatim>\<open>1e16\<close>, because
  \<^verbatim>\<open>1e16 + 1.0\<close> is \<^verbatim>\<open>1e16\<close> twice, while \<^verbatim>\<open>sum(balances.values())\<close> is
  \<^verbatim>\<open>1e16 + 2.0\<close>, that is \<^verbatim>\<open>1.0000000000000002e16\<close>.
\<close>

theorem float_amounts_counterexample:
  "total_supply (run_ops BlueCarbonToken
     [Issue ''a'' (Finite 10000000000000000), Issue ''b'' (Finite 1), Issue ''b'' (Finite 1)]) =
     Finite 10000000000000000 \<and>
   py_sum (map snd (balances (run_ops BlueCarbonToken
     [Issue ''a'' (Finite 10000000000000000), Issue ''b'' (Finite 1), Issue ''b'' (Finite 1)]))) =
     Finite 10000000000000002 \<and>
   total_supply (run_ops BlueCarbonToken
     [Issue ''a'' (Finite 10000000000000000), Issue ''b'' (Finite 1), Issue ''b'' (Finite 1)]) \<noteq>
   py_sum (map snd (balances (run_ops BlueCarbonToken
     [Issue ''a'' (Finite 10000000000000000), Issue ''b'' (Finite 1), Issue ''b'' (Finite 1)])))"
  by (simp add: float_ledger py_sum_def double_0_plus_1e16 double_1e16_plus_2)

text \<open>
  Claim C4. In every token state, if the sender's balance (0 when the sender has no
  entry) is strictly less than the amount, \<^verbatim>\<open>transfer\<close> returns \<^verbatim>\<open>False\<close> and the whole
  state, balances and total supply, is unchanged.
\<close>

theorem transfer_insufficient_funds:
  "dict_get (balances s) sender 0 < (amount::int) \<Longrightarrow>
   transfer s sender receiver amount = (Inr False, s)"
  by (simp add: transfer_def)

text \<open>
  The scenario of the specification: 100 from \<^verbatim>\<open>NGO_1\<close>, whose balance is 80.
\<close>

theorem transfer_insufficient_funds_witness:
  "dict_get (balances (run_ops BlueCarbonToken [Issue ''NGO_1'' (80::int), Issue ''Community_1'' 30]))
      ''NGO_1'' 0 < 100 \<and>
   transfer (run_ops BlueCarbonToken [Issue ''NGO_1'' (80::int), Issue ''Community_1'' 30])
      ''NGO_1'' ''Community_1'' 100 =
     (Inr False, \<lparr>name = ''BlueCarbonToken'', symbol = ''BCT'',
        balances = [(''NGO_1'', 80), (''Community_1'', 30)], total_supply = 110\<rparr>)"
proof -
  let ?s = "run_ops BlueCarbonToken [Issue ''NGO_1'' (80::int), Issue ''Community_1'' 30]"
  have s: "?s = \<lparr>name = ''BlueCarbonToken'', symbol = ''BCT'',
        balances = [(''NGO_1'', 80), (''Community_1'', 30)], total_supply = 110\<rparr>"
    by (simp add: run_ops_def issue_def BlueCarbonToken_def dict_get_def dict_setitem_def)
  have h: "dict_get (balances ?s) ''NGO_1'' 0 < 100"
    by (simp add: s dict_get_def)
  from transfer_insufficient_funds [OF h, of "''Community_1''"] h s show ?thesis
    by simp
qed

text \<open>
  A sender that has an entry with a balance of at least the amount: the transfer
  succeeds, with the two writes the source makes.
\<close>

lemma transfer_success:
  assumes "dict_getitem (balances s) sender = Inr v" and "amount \<le> (v::int)"
  shows "transfer s sender receiver amount =
     (Inr True, s\<lparr>balances :=
        dict_setitem (dict_setitem (balances s) sender (v - amount)) receiver
          (dict_get (dict_setitem (balances s) sender (v - amount)) receiver 0 + amount)\<rparr>)"
  using assms getitem_get [OF assms(1), of 0] by (simp add: transfer_def Let_def)

lemma transfer_distinct_users:
  assumes "dict_getitem (balances s) sender = Inr v" and "amount \<le> (v::int)"
    and "sender \<noteq> receiver"
  shows "fst (transfer s sender receiver amount) = Inr True"
    and "dict_get (balances (snd (transfer s sender receiver amount))) sender 0 = v - amount"
    and "dict_get (balances (snd (transfer s sender receiver amount))) receiver 0 =
           dict_get (balances s) receiver 0 + amount"
    and "total_supply (snd (transfer s sender receiver amount)) = total_supply s"
  using assms(3) by (simp_all add: transfer_success [OF assms(1,2)] dict_get_setitem)

lemma transfer_scenario:
  "transfer \<lparr>name = ''BlueCarbonToken'', symbol = ''BCT'',
       balances = [(''NGO_1'', 80), (''Community_1'', 30)], total_supply = (110::int)\<rparr>
     ''NGO_1'' ''Community_1'' 50 =
   (Inr True, \<lparr>name = ''BlueCarbonToken'', symbol = ''BCT'',
       balances = [(''NGO_1'', 30), (''Community_1'', 80)], total_supply = 110\<rparr>)"
  by (simp add: transfer_def dict_get_def dict_getitem_def dict_setitem_def)

text \<open>
  Claim C5, at a sender without an entry and amount 0. The guard reads the balance with
  \<^verbatim>\<open>balances.get(sender, 0)\<close>, which is 0 and at least the amount, so the claim promises
  success; the debit then reads \<^verbatim>\<open>balances[sender]\<close>, and \<^verbatim>\<open>transfer\<close> raises
  \<^verbatim>\<open>KeyError\<close> instead of returning \<^verbatim>\<open>True\<close>. The state is left as it was.
\<close>

theorem transfer_absent_sender_raises:
  "dict_get (balances (BlueCarbonToken :: int token)) ''NGO_1'' 0 \<ge> 0 \<and>
   transfer (BlueCarbonToken :: int token) ''NGO_1'' ''Community_1'' 0 = (Inl KeyError, BlueCarbonToken)"
  by (simp add: transfer_def dict_get_def dict_getitem_def BlueCarbonToken_def)

text \<open>
  A transfer from a user to the same user, when the user has an entry with a balance of
  at least the amount, changes no balance and not the total supply.
\<close>

lemma self_transfer_present:
  assumes "dict_getitem (balances s) u = Inr v" and "amount \<le> (v::int)"
  shows "fst (transfer s u u amount) = Inr True"
    and "dict_get (balances (snd (transfer s u u amount))) w 0 = dict_get (balances s) w 0"
    and "total_supply (snd (transfer s u u amount)) = total_supply s"
  using getitem_get [OF assms(1), of 0]
  by (simp_all add: transfer_success [OF assms] dict_get_setitem)

text \<open>
  Claim C10, at a user without an entry and amount 0: the balance read by the guard is
  0, at least the amount, and the self-transfer raises \<^verbatim>\<open>KeyError\<close> where the claim
  says it returns \<^verbatim>\<open>True\<close>.
\<close>

theorem self_transfer_absent_raises:
  "dict_get (balances (BlueCarbonToken :: int token)) ''NGO_1'' 0 \<ge> 0 \<and>
   transfer (BlueCarbonToken :: int token) ''NGO_1'' ''NGO_1'' 0 = (Inl KeyError, BlueCarbonToken)"
  by (simp add: transfer_def dict_get_def dict_getitem_def BlueCarbonToken_def)

subsection \<open>Non-negative balances\<close>











section \<open>Blocks and the chain\<close>

subsection \<open>The mining loop\<close>

text \<open>\<^verbatim>\<open>compute_hash\<close> does not read the stored hash.\<close>

lemma compute_hash_hash_update [simp]: "compute_hash L (b\<lparr>hash := x\<rparr>) = compute_hash L b"
  by (simp add: compute_hash_def)

lemma pow_while_result:
  assumes "pow_while L b h = Some r"
  shows "h = compute_hash L b \<longrightarrow>
         (\<exists>m\<ge>nonce b. r = (b\<lparr>nonce := m\<rparr>, compute_hash L (b\<lparr>nonce := m\<rparr>)) \<and>
            startswith (compute_hash L (b\<lparr>nonce := m\<rparr>)) target \<and>
            (\<forall>j. nonce b \<le> j \<and> j < m \<longrightarrow>
                 \<not> startswith (compute_hash L (b\<lparr>nonce := j\<rparr>)) target))"
proof (rule pow_while.raw_induct [where P = "\<lambda>L b h r. h = compute_hash L b \<longrightarrow>
         (\<exists>m\<ge>nonce b. r = (b\<lparr>nonce := m\<rparr>, compute_hash L (b\<lparr>nonce := m\<rparr>)) \<and>
            startswith (compute_hash L (b\<lparr>nonce := m\<rparr>)) target \<and>
            (\<forall>j. nonce b \<le> j \<and> j < m \<longrightarrow>
                 \<not> startswith (compute_hash L (b\<lparr>nonce := j\<rparr>)) target))", OF _ assms])
  fix pow L b h r
  assume IH: "\<And>L b h r. pow L b h = Some r \<Longrightarrow> h = compute_hash L b \<longrightarrow>
         (\<exists>m\<ge>nonce b. r = (b\<lparr>nonce := m\<rparr>, compute_hash L (b\<lparr>nonce := m\<rparr>)) \<and>
            startswith (compute_hash L (b\<lparr>nonce := m\<rparr>)) target \<and>
            (\<forall>j. nonce b \<le> j \<and> j < m \<longrightarrow>
                 \<not> startswith (compute_hash L (b\<lparr>nonce := j\<rparr>)) target))"
    and eq: "(if \<not> startswith h target
          then pow L (b\<lparr>nonce := nonce b + 1\<rparr>) (compute_hash L (b\<lparr>nonce := nonce b + 1\<rparr>))
          else Some (b, h)) = Some r"
  show "h = compute_hash L b \<longrightarrow>
         (\<exists>m\<ge>nonce b. r = (b\<lparr>nonce := m\<rparr>, compute_hash L (b\<lparr>nonce := m\<rparr>)) \<and>
            startswith (compute_hash L (b\<lparr>nonce := m\<rparr>)) target \<and>
            (\<forall>j. nonce b \<le> j \<and> j < m \<longrightarrow>
                 \<not> startswith (compute_hash L (b\<lparr>nonce := j\<rparr>)) target))"
  proof
    assume h: "h = compute_hash L b"
    show "\<exists>m\<ge>nonce b. r = (b\<lparr>nonce := m\<rparr>, compute_hash L (b\<lparr>nonce := m\<rparr>)) \<and>
            startswith (compute_hash L (b\<lparr>nonce := m\<rparr>)) target \<and>
            (\<forall>j. nonce b \<le> j \<and> j < m \<longrightarrow>
                 \<not> startswith (compute_hash L (b\<lparr>nonce := j\<rparr>)) target)"
    proof (cases "startswith h target")
      case True
      with eq have "r = (b, h)" by simp
      with True h show ?thesis by (intro exI [of _ "nonce b"]) auto
    next
      case False
      let ?b = "b\<lparr>nonce := nonce b + 1\<rparr>"
      from False eq have "pow L ?b (compute_hash L ?b) = Some r" by simp
      from IH [OF this] obtain m where m: "nonce b + 1 \<le> m"
        and r: "r = (b\<lparr>nonce := m\<rparr>, compute_hash L (b\<lparr>nonce := m\<rparr>))"
        and ok: "startswith (compute_hash L (b\<lparr>nonce := m\<rparr>)) target"
        and least: "\<forall>j. nonce b + 1 \<le> j \<and> j < m \<longrightarrow>
                 \<not> startswith (compute_hash L (b\<lparr>nonce := j\<rparr>)) target"
        by auto
      have "\<not> startswith (compute_hash L (b\<lparr>nonce := j\<rparr>)) target"
        if "nonce b \<le> j" and "j < m" for j
      proof (cases "j = nonce b")
        case True
        with False h show ?thesis by simp
      next
        case False
        with that least show ?thesis by simp
      qed
      with m r ok show ?thesis by (intro exI [of _ m]) simp
    qed
  qed
qed

lemma proof_of_work_result:
  assumes "proof_of_work L b = Some r"
  shows "\<exists>m\<ge>0. r = (b\<lparr>nonce := m\<rparr>, compute_hash L (b\<lparr>nonce := m\<rparr>)) \<and>
            startswith (compute_hash L (b\<lparr>nonce := m\<rparr>)) target \<and>
            (\<forall>j. 0 \<le> j \<and> j < m \<longrightarrow>
                 \<not> startswith (compute_hash L (b\<lparr>nonce := j\<rparr>)) target)"
  using pow_while_result [OF assms [unfolded proof_of_work_def]] by simp

lemma pow_while_finds:
  assumes "startswith (compute_hash L (b\<lparr>nonce := n + int k\<rparr>)) target"
    and "\<forall>j. n \<le> j \<and> j < n + int k \<longrightarrow> \<not> startswith (compute_hash L (b\<lparr>nonce := j\<rparr>)) target"
  shows "pow_while L (b\<lparr>nonce := n\<rparr>) (compute_hash L (b\<lparr>nonce := n\<rparr>)) =
         Some (b\<lparr>nonce := n + int k\<rparr>, compute_hash L (b\<lparr>nonce := n + int k\<rparr>))"
  using assms
proof (induction k arbitrary: n)
  case 0
  then show ?case by (subst pow_while.simps) simp
next
  case (Suc k)
  from Suc.prems(2) have no: "\<not> startswith (compute_hash L (b\<lparr>nonce := n\<rparr>)) target"
    by simp
  have eq: "n + 1 + int k = n + int (Suc k)" by simp
  from Suc.prems have "pow_while L (b\<lparr>nonce := n + 1\<rparr>) (compute_hash L (b\<lparr>nonce := n + 1\<rparr>)) =
         Some (b\<lparr>nonce := n + 1 + int k\<rparr>, compute_hash L (b\<lparr>nonce := n + 1 + int k\<rparr>))"
    by (intro Suc.IH) (simp_all only: eq, simp)
  with no show ?case
    by (subst pow_while.simps) (simp add: eq)
qed

lemma proof_of_work_finds:
  assumes "0 \<le> m" and "startswith (compute_hash L (b\<lparr>nonce := m\<rparr>)) target"
    and "\<forall>j. 0 \<le> j \<and> j < m \<longrightarrow> \<not> startswith (compute_hash L (b\<lparr>nonce := j\<rparr>)) target"
  shows "proof_of_work L b = Some (b\<lparr>nonce := m\<rparr>, compute_hash L (b\<lparr>nonce := m\<rparr>))"
proof -
  from assms(1) have m: "0 + int (nat m) = m" by simp
  have "pow_while L (b\<lparr>nonce := 0\<rparr>) (compute_hash L (b\<lparr>nonce := 0\<rparr>)) =
        Some (b\<lparr>nonce := 0 + int (nat m)\<rparr>, compute_hash L (b\<lparr>nonce := 0 + int (nat m)\<rparr>))"
    using assms(2,3) by (intro pow_while_finds) (simp_all only: m)
  then show ?thesis by (simp only: proof_of_work_def m)
qed

lemma least_valid_nonce:
  assumes "0 \<le> n" and "Q (n::int)"
  shows "\<exists>m\<ge>0. Q m \<and> (\<forall>j. 0 \<le> j \<and> j < m \<longrightarrow> \<not> Q j)"
proof -
  define k where "k = (LEAST k. Q (int k))"
  from assms have "Q (int (nat n))" by simp
  then have 1: "Q (int k)" unfolding k_def by (rule LeastI)
  have 2: "\<not> Q j" if "0 \<le> j" and "j < int k" for j
  proof -
    from that have "nat j < k" by linarith
    then have "\<not> Q (int (nat j))" unfolding k_def by (rule not_less_Least)
    moreover from that(1) have "int (nat j) = j" by simp
    ultimately show ?thesis by metis
  qed
  have 0: "0 \<le> int k" by simp
  from 0 1 2 show ?thesis by blast
qed

lemma proof_of_work_terminates:
  assumes "\<exists>n\<ge>0. startswith (compute_hash L (b\<lparr>nonce := n\<rparr>)) target"
  shows "\<exists>m\<ge>0. proof_of_work L b = Some (b\<lparr>nonce := m\<rparr>, compute_hash L (b\<lparr>nonce := m\<rparr>)) \<and>
           startswith (compute_hash L (b\<lparr>nonce := m\<rparr>)) target \<and>
           (\<forall>j. 0 \<le> j \<and> j < m \<longrightarrow> \<not> startswith (compute_hash L (b\<lparr>nonce := j\<rparr>)) target)"
proof -
  from assms obtain n where "0 \<le> n" and "startswith (compute_hash L (b\<lparr>nonce := n\<rparr>)) target"
    by blast
  from least_valid_nonce [of n "\<lambda>n. startswith (compute_hash L (b\<lparr>nonce := n\<rparr>)) target", OF this]
  obtain m where m: "0 \<le> m" "startswith (compute_hash L (b\<lparr>nonce := m\<rparr>)) target"
    "\<forall>j. 0 \<le> j \<and> j < m \<longrightarrow> \<not> startswith (compute_hash L (b\<lparr>nonce := j\<rparr>)) target"
    by blast
  from proof_of_work_finds [OF m] m show ?thesis by blast
qed

subsection \<open>Appending blocks\<close>

lemma Block_fields [simp]:
  "index (Block L i t d p n) = i" "timestamp (Block L i t d p n) = t"
  "data (Block L i t d p n) = d" "previous_hash (Block L i t d p n) = p"
  "nonce (Block L i t d p n) = n"
  "hash (Block L i t d p n) = compute_hash L (Block L i t d p n)"
  by (simp_all add: Block_def Let_def compute_hash_def)

lemma last_block_nonempty: "chain bc \<noteq> [] \<Longrightarrow> last_block bc = Inr (last (chain bc))"
  by (cases "chain bc") (simp_all add: last_block_def)

lemma add_block_empty: "chain bc = [] \<Longrightarrow> add_block L now d bc = Some (Inl IndexError)"
  by (simp add: add_block_def last_block_def)

lemma add_block_nonempty:
  assumes "chain bc \<noteq> []"
  shows "add_block L now d bc =
     (case proof_of_work L (Block L (index (last (chain bc)) + 1) now d (hash (last (chain bc))) 0) of
        None \<Rightarrow> None
      | Some r \<Rightarrow> Some (Inr ((fst r)\<lparr>hash := snd r\<rparr>,
            bc\<lparr>chain := chain bc @ [(fst r)\<lparr>hash := snd r\<rparr>]\<rparr>)))"
  by (simp add: add_block_def last_block_nonempty [OF assms] Let_def split: option.splits prod.splits)

lemma add_block_Some:
  assumes "add_block L now d bc = Some (Inr (nb, bc'))"
  shows "chain bc \<noteq> []" and "chain bc' = chain bc @ [nb]"
    and "index nb = index (last (chain bc)) + 1"
    and "previous_hash nb = hash (last (chain bc))"
    and "hash nb = compute_hash L nb" and "startswith (hash nb) target"
proof -
  show ne: "chain bc \<noteq> []"
  proof
    assume "chain bc = []"
    from add_block_empty [OF this, of L now d] assms show False by simp
  qed
  let ?c = "Block L (index (last (chain bc)) + 1) now d (hash (last (chain bc))) 0"
  obtain r where r: "proof_of_work L ?c = Some r"
    using assms by (cases "proof_of_work L ?c") (simp_all add: add_block_nonempty [OF ne])
  from assms have res: "nb = (fst r)\<lparr>hash := snd r\<rparr>" "bc' = bc\<lparr>chain := chain bc @ [nb]\<rparr>"
    by (auto simp add: add_block_nonempty [OF ne] r)
  from proof_of_work_result [OF r] obtain m where
    m: "r = (?c\<lparr>nonce := m\<rparr>, compute_hash L (?c\<lparr>nonce := m\<rparr>))"
      "startswith (compute_hash L (?c\<lparr>nonce := m\<rparr>)) target"
    by blast
  from res(1) have nb: "nb = ?c\<lparr>nonce := m, hash := compute_hash L (?c\<lparr>nonce := m\<rparr>)\<rparr>"
    by (simp add: m(1))
  from res(2) show "chain bc' = chain bc @ [nb]" by simp
  show "index nb = index (last (chain bc)) + 1" by (simp add: nb)
  show "previous_hash nb = hash (last (chain bc))" by (simp add: nb)
  show "hash nb = compute_hash L nb" by (simp add: nb)
  from m(2) show "startswith (hash nb) target" by (simp add: nb)
qed

lemma add_blocks_Cons:
  assumes "add_blocks L bc ((now, d) # xs) = Some (Inr bc')"
  shows "\<exists>nb bc1. add_block L now d bc = Some (Inr (nb, bc1)) \<and>
            add_blocks L bc1 xs = Some (Inr bc')"
proof (cases "add_block L now d bc")
  case None
  with assms show ?thesis by simp
next
  case (Some r)
  show ?thesis
  proof (cases r)
    case (Inl e)
    with Some assms show ?thesis by simp
  next
    case (Inr p)
    obtain nb bc1 where "p = (nb, bc1)" by (cases p)
    with Inr Some assms show ?thesis by simp
  qed
qed

lemma add_blocks_pairs:
  assumes step: "\<And>now d b nb b'. add_block L now d b = Some (Inr (nb, b')) \<Longrightarrow> P (last (chain b)) nb"
  shows "add_blocks L bc xs = Some (Inr bc') \<Longrightarrow>
     \<forall>i. 0 < i \<and> i < length (chain bc) \<longrightarrow> P (chain bc ! (i - 1)) (chain bc ! i) \<Longrightarrow>
     \<forall>i. 0 < i \<and> i < length (chain bc') \<longrightarrow> P (chain bc' ! (i - 1)) (chain bc' ! i)"
proof (induction xs arbitrary: bc)
  case Nil
  then show ?case by simp
next
  case (Cons x xs)
  obtain now d where x: "x = (now, d)" by (cases x)
  from add_blocks_Cons [OF Cons.prems(1) [unfolded x]]
  obtain nb bc1 where ab: "add_block L now d bc = Some (Inr (nb, bc1))"
    and rest: "add_blocks L bc1 xs = Some (Inr bc')"
    by blast
  note ne = add_block_Some(1) [OF ab] and ch = add_block_Some(2) [OF ab]
  have "P (chain bc1 ! (i - 1)) (chain bc1 ! i)" if "0 < i" and "i < length (chain bc1)" for i
  proof (cases "i < length (chain bc)")
    case True
    with that have "i - 1 < length (chain bc)" by simp
    moreover from True that Cons.prems(2) have "P (chain bc ! (i - 1)) (chain bc ! i)" by simp
    ultimately show ?thesis using True by (simp add: ch nth_append)
  next
    case False
    with that ch have i: "i = length (chain bc)" by simp
    from ne have "chain bc ! (length (chain bc) - 1) = last (chain bc)"
      by (simp add: last_conv_nth)
    with step [OF ab] ne show ?thesis
      by (simp add: i ch nth_append)
  qed
  then have "\<forall>i. 0 < i \<and> i < length (chain bc1) \<longrightarrow> P (chain bc1 ! (i - 1)) (chain bc1 ! i)"
    by simp
  from Cons.IH [OF rest this] show ?case .
qed

lemma Blockchain_chain:
  "chain (Blockchain L now) = [Block L 0 now (JStr ''Genesis Block'') ''0'' 0]"
  by (simp add: Blockchain_def create_genesis_block_def Let_def)


text \<open>
  Claim C1. In every chain produced by constructing a \<^verbatim>\<open>Blockchain\<close> and performing any
  sequence of \<^verbatim>\<open>add_block\<close> calls, for every index \<open>i > 0\<close> the block at \<open>i\<close> has the
  hash of the block at \<open>i - 1\<close> as its previous hash, and its index is one more.
\<close>

theorem chain_linked:
  assumes "add_blocks L (Blockchain L t0) xs = Some (Inr bc)"
    and "0 < i" and "i < length (chain bc)"
  shows "previous_hash (chain bc ! i) = hash (chain bc ! (i - 1)) \<and>
         index (chain bc ! i) = index (chain bc ! (i - 1)) + 1"
proof -
  let ?P = "\<lambda>a b. previous_hash b = hash a \<and> index b = index a + 1"
  have init: "\<forall>i. 0 < i \<and> i < length (chain (Blockchain L t0)) \<longrightarrow>
      ?P (chain (Blockchain L t0) ! (i - 1)) (chain (Blockchain L t0) ! i)"
    by (auto simp add: Blockchain_chain)
  have "\<forall>i. 0 < i \<and> i < length (chain bc) \<longrightarrow> ?P (chain bc ! (i - 1)) (chain bc ! i)"
  proof (rule add_blocks_pairs [where P = ?P, OF _ assms(1) init])
    fix now d b nb b'
    assume "add_block L now d b = Some (Inr (nb, b'))"
    from add_block_Some(3,4) [OF this] show "?P (last (chain b)) nb" by simp
  qed
  with assms(2,3) show ?thesis by blast
qed

text \<open>
  Claim C2. For every block of such a chain except the genesis block, the stored hash
  equals \<^verbatim>\<open>compute_hash\<close> of the block's own fields, and it starts with \<^verbatim>\<open>difficulty\<close>
  (two) characters \<^verbatim>\<open>0\<close>.
\<close>

theorem mined_blocks_hash:
  assumes "add_blocks L (Blockchain L t0) xs = Some (Inr bc)"
    and "0 < i" and "i < length (chain bc)"
  shows "hash (chain bc ! i) = compute_hash L (chain bc ! i) \<and>
         startswith (hash (chain bc ! i)) (replicate difficulty CHR ''0'')"
proof -
  let ?P = "\<lambda>a b. hash b = compute_hash L b \<and> startswith (hash b) target"
  have init: "\<forall>i. 0 < i \<and> i < length (chain (Blockchain L t0)) \<longrightarrow>
      ?P (chain (Blockchain L t0) ! (i - 1)) (chain (Blockchain L t0) ! i)"
    by (auto simp add: Blockchain_chain)
  have "\<forall>i. 0 < i \<and> i < length (chain bc) \<longrightarrow> ?P (chain bc ! (i - 1)) (chain bc ! i)"
  proof (rule add_blocks_pairs [where P = ?P, OF _ assms(1) init])
    fix now d b nb b'
    assume "add_block L now d b = Some (Inr (nb, b'))"
    from add_block_Some(5,6) [OF this] show "?P (last (chain b)) nb" by (rule conjI)
  qed
  with assms(2,3) show ?thesis unfolding target_def by blast
qed

subsection \<open>The genesis block\<close>

lemma target_eq: "target = ''00''"
  by (simp add: target_def difficulty_def numeral_2_eq_2)

lemma Blockchain_genesis: "chain (Blockchain L now) =
     [\<lparr>index = 0, timestamp = now, data = JStr ''Genesis Block'', previous_hash = ''0'',
       nonce = 0,
       hash = compute_hash L \<lparr>index = 0, timestamp = now, data = JStr ''Genesis Block'',
                previous_hash = ''0'', nonce = 0, hash = []\<rparr>\<rparr>]"
  by (simp add: Blockchain_chain Block_def Let_def)

lemma genesis_hash: "hash (hd (chain (Blockchain L now))) = compute_hash L (hd (chain (Blockchain L now)))"
  by (simp add: Blockchain_chain)

lemma test_genesis_hash: "hash (hd (chain (Blockchain test_lib now))) = ''9f3a''"
  by (simp add: Blockchain_genesis compute_hash_def test_lib_def)

lemma test_genesis_unmined: "\<not> startswith ''9f3a'' target"
  by (simp add: startswith_def target_eq)

text \<open>
  Claim C7. Constructing a \<^verbatim>\<open>Blockchain\<close> gives a chain of exactly one block, with index
  0, previous hash \<^verbatim>\<open>"0"\<close>, payload \<^verbatim>\<open>"Genesis Block"\<close>, nonce 0 and as stored hash the
  value of \<^verbatim>\<open>compute_hash\<close> on those fields. No proof of work is done: with the
  library instance above the genesis hash does not start with the target prefix.
\<close>

theorem genesis_block_created:
  "chain (Blockchain L now) =
     [\<lparr>index = 0, timestamp = now, data = JStr ''Genesis Block'', previous_hash = ''0'',
       nonce = 0,
       hash = compute_hash L \<lparr>index = 0, timestamp = now, data = JStr ''Genesis Block'',
                previous_hash = ''0'', nonce = 0, hash = []\<rparr>\<rparr>] \<and>
   hash (hd (chain (Blockchain L now))) = compute_hash L (hd (chain (Blockchain L now))) \<and>
   \<not> startswith (hash (hd (chain (Blockchain test_lib now)))) target"
  using Blockchain_genesis [of L now] genesis_hash [of L now] test_genesis_unmined by (simp only: test_genesis_hash simp_thms)

subsection \<open>A concrete chain\<close>

text \<open>
  A chain of three blocks, computed with the library instance above.
\<close>

lemma test_chain:
  "add_blocks test_lib (Blockchain test_lib ''t0'') [(''t1'', JStr ''a''), (''t2'', JInt 5)] =
   Some (Inr \<lparr>chain =
     [\<lparr>index = 0, timestamp = ''t0'', data = JStr ''Genesis Block'', previous_hash = ''0'',
        nonce = 0, hash = ''9f3a''\<rparr>,
      \<lparr>index = 1, timestamp = ''t1'', data = JStr ''a'', previous_hash = ''9f3a'',
        nonce = 2, hash = ''00c4''\<rparr>,
      \<lparr>index = 2, timestamp = ''t2'', data = JInt 5, previous_hash = ''00c4'',
        nonce = 1, hash = ''00c4''\<rparr>]\<rparr>)"
  by code_simp

text \<open>
  The linkage of the third block of that chain to the second.
\<close>

theorem chain_linked_witness:
  "add_blocks test_lib (Blockchain test_lib ''t0'') [(''t1'', JStr ''a''), (''t2'', JInt 5)] =
   Some (Inr \<lparr>chain =
     [\<lparr>index = 0, timestamp = ''t0'', data = JStr ''Genesis Block'', previous_hash = ''0'',
        nonce = 0, hash = ''9f3a''\<rparr>,
      \<lparr>index = 1, timestamp = ''t1'', data = JStr ''a'', previous_hash = ''9f3a'',
        nonce = 2, hash = ''00c4''\<rparr>,
      \<lparr>index = 2, timestamp = ''t2'', data = JInt 5, previous_hash = ''00c4'',
        nonce = 1, hash = ''00c4''\<rparr>]\<rparr>) \<and>
   previous_hash \<lparr>index = 2, timestamp = ''t2'', data = JInt 5, previous_hash = ''00c4'',
        nonce = 1, hash = ''00c4''\<rparr> =
   hash \<lparr>index = 1, timestamp = ''t1'', data = JStr ''a'', previous_hash = ''9f3a'',
        nonce = 2, hash = ''00c4''\<rparr> \<and>
   index \<lparr>index = 2, timestamp = ''t2'', data = JInt 5, previous_hash = ''00c4'',
        nonce = 1, hash = ''00c4''\<rparr> =
   index \<lparr>index = 1, timestamp = ''t1'', data = JStr ''a'', previous_hash = ''9f3a'',
        nonce = 2, hash = ''00c4''\<rparr> + 1"
  using chain_linked [OF test_chain, of 2] test_chain by simp

text \<open>
  The hash of the second block of that chain.
\<close>

theorem mined_blocks_hash_witness:
  "add_blocks test_lib (Blockchain test_lib ''t0'') [(''t1'', JStr ''a''), (''t2'', JInt 5)] =
   Some (Inr \<lparr>chain =
     [\<lparr>index = 0, timestamp = ''t0'', data = JStr ''Genesis Block'', previous_hash = ''0'',
        nonce = 0, hash = ''9f3a''\<rparr>,
      \<lparr>index = 1, timestamp = ''t1'', data = JStr ''a'', previous_hash = ''9f3a'',
        nonce = 2, hash = ''00c4''\<rparr>,
      \<lparr>index = 2, timestamp = ''t2'', data = JInt 5, previous_hash = ''00c4'',
        nonce = 1, hash = ''00c4''\<rparr>]\<rparr>) \<and>
   compute_hash test_lib \<lparr>index = 1, timestamp = ''t1'', data = JStr ''a'',
        previous_hash = ''9f3a'', nonce = 2, hash = ''00c4''\<rparr> = ''00c4'' \<and>
   startswith ''00c4'' (replicate difficulty CHR ''0'')"
  using mined_blocks_hash [OF test_chain, of 1] test_chain by simp

lemma add_blocks_nonempty:
  "add_blocks L bc xs = Some (Inr bc') \<Longrightarrow> chain bc \<noteq> [] \<Longrightarrow> chain bc' \<noteq> []"
proof (induction xs arbitrary: bc)
  case Nil
  then show ?case by simp
next
  case (Cons x xs)
  obtain now d where x: "x = (now, d)" by (cases x)
  from add_blocks_Cons [OF Cons.prems(1) [unfolded x]]
  obtain nb bc1 where ab: "add_block L now d bc = Some (Inr (nb, bc1))"
    and rest: "add_blocks L bc1 xs = Some (Inr bc')"
    by blast
  from add_block_Some(2) [OF ab] have "chain bc1 \<noteq> []" by simp
  from Cons.IH [OF rest this] show ?case .
qed

lemma Blockchain_nonempty:
  "add_blocks L (Blockchain L t0) xs = Some (Inr bc) \<Longrightarrow> chain bc \<noteq> []"
  by (erule add_blocks_nonempty) (simp add: Blockchain_chain)

lemma add_block_terminates:
  assumes ne: "chain bc \<noteq> []"
    and ex: "\<exists>n\<ge>0. startswith (compute_hash L
        ((Block L (index (last (chain bc)) + 1) now d (hash (last (chain bc))) 0)\<lparr>nonce := n\<rparr>)) target"
  shows "\<exists>m\<ge>0. add_block L now d bc = Some (Inr
      ((Block L (index (last (chain bc)) + 1) now d (hash (last (chain bc))) 0)
          \<lparr>nonce := m, hash := compute_hash L
             ((Block L (index (last (chain bc)) + 1) now d (hash (last (chain bc))) 0)\<lparr>nonce := m\<rparr>)\<rparr>,
       bc\<lparr>chain := chain bc @
         [(Block L (index (last (chain bc)) + 1) now d (hash (last (chain bc))) 0)
          \<lparr>nonce := m, hash := compute_hash L
             ((Block L (index (last (chain bc)) + 1) now d (hash (last (chain bc))) 0)\<lparr>nonce := m\<rparr>)\<rparr>]\<rparr>))"
proof -
  define c where "c = Block L (index (last (chain bc)) + 1) now d (hash (last (chain bc))) 0"
  from proof_of_work_terminates [OF ex [folded c_def]]
  obtain m where m: "0 \<le> m"
    and pw: "proof_of_work L c = Some (c\<lparr>nonce := m\<rparr>, compute_hash L (c\<lparr>nonce := m\<rparr>))"
    by blast
  have "add_block L now d bc = Some (Inr
      (c\<lparr>nonce := m, hash := compute_hash L (c\<lparr>nonce := m\<rparr>)\<rparr>,
       bc\<lparr>chain := chain bc @ [c\<lparr>nonce := m, hash := compute_hash L (c\<lparr>nonce := m\<rparr>)\<rparr>]\<rparr>))"
    by (simp add: add_block_nonempty [OF ne] c_def [symmetric] pw)
  with m show ?thesis unfolding c_def by blast
qed

subsection \<open>Termination of mining\<close>

text \<open>
  Claim C8. For every block, if some nonce \<open>n \<ge> 0\<close> gives the block a digest that
  starts with \<^verbatim>\<open>difficulty\<close> characters \<^verbatim>\<open>0\<close>, then \<^verbatim>\<open>proof_of_work\<close> returns, with the
  digest for the least such nonce. Under that assumption on the block it builds,
  \<^verbatim>\<open>add_block\<close> on a chain produced by the constructor and earlier \<^verbatim>\<open>add_block\<close> calls
  raises nothing and returns the mined block, which it has appended to the chain.
\<close>

theorem mining_terminates:
  "((\<exists>n\<ge>0. startswith (compute_hash L (blk\<lparr>nonce := n\<rparr>)) target) \<longrightarrow>
    (\<exists>m\<ge>0. proof_of_work L blk =
         Some (blk\<lparr>nonce := m\<rparr>, compute_hash L (blk\<lparr>nonce := m\<rparr>)) \<and>
       startswith (compute_hash L (blk\<lparr>nonce := m\<rparr>)) target \<and>
       (\<forall>j. 0 \<le> j \<and> j < m \<longrightarrow>
          \<not> startswith (compute_hash L (blk\<lparr>nonce := j\<rparr>)) target))) \<and>
   (add_blocks L (Blockchain L t0) xs = Some (Inr bc) \<and>
    (\<exists>n\<ge>0. startswith (compute_hash L
        ((Block L (index (last (chain bc)) + 1) now d (hash (last (chain bc))) 0)
           \<lparr>nonce := n\<rparr>)) target) \<longrightarrow>
    (\<exists>m\<ge>0. add_block L now d bc = Some (Inr
      ((Block L (index (last (chain bc)) + 1) now d (hash (last (chain bc))) 0)
          \<lparr>nonce := m, hash := compute_hash L
             ((Block L (index (last (chain bc)) + 1) now d (hash (last (chain bc))) 0)
                \<lparr>nonce := m\<rparr>)\<rparr>,
       bc\<lparr>chain := chain bc @
         [(Block L (index (last (chain bc)) + 1) now d (hash (last (chain bc))) 0)
          \<lparr>nonce := m, hash := compute_hash L
             ((Block L (index (last (chain bc)) + 1) now d (hash (last (chain bc))) 0)
                \<lparr>nonce := m\<rparr>)\<rparr>]\<rparr>))))"
proof (intro conjI impI)
  assume "\<exists>n\<ge>0. startswith (compute_hash L (blk\<lparr>nonce := n\<rparr>)) target"
  then show "\<exists>m\<ge>0. proof_of_work L blk =
         Some (blk\<lparr>nonce := m\<rparr>, compute_hash L (blk\<lparr>nonce := m\<rparr>)) \<and>
       startswith (compute_hash L (blk\<lparr>nonce := m\<rparr>)) target \<and>
       (\<forall>j. 0 \<le> j \<and> j < m \<longrightarrow>
          \<not> startswith (compute_hash L (blk\<lparr>nonce := j\<rparr>)) target)"
    by (rule proof_of_work_terminates)
next
  assume a: "add_blocks L (Blockchain L t0) xs = Some (Inr bc) \<and>
    (\<exists>n\<ge>0. startswith (compute_hash L
        ((Block L (index (last (chain bc)) + 1) now d (hash (last (chain bc))) 0)
           \<lparr>nonce := n\<rparr>)) target)"
  then have ne: "chain bc \<noteq> []" by (intro Blockchain_nonempty [of L t0 xs]) simp
  from a have ex: "\<exists>n\<ge>0. startswith (compute_hash L
        ((Block L (index (last (chain bc)) + 1) now d (hash (last (chain bc))) 0)
           \<lparr>nonce := n\<rparr>)) target" by (rule conjunct2)
  from add_block_terminates [OF ne ex]
  show "\<exists>m\<ge>0. add_block L now d bc = Some (Inr
      ((Block L (index (last (chain bc)) + 1) now d (hash (last (chain bc))) 0)
          \<lparr>nonce := m, hash := compute_hash L
             ((Block L (index (last (chain bc)) + 1) now d (hash (last (chain bc))) 0)
                \<lparr>nonce := m\<rparr>)\<rparr>,
       bc\<lparr>chain := chain bc @
         [(Block L (index (last (chain bc)) + 1) now d (hash (last (chain bc))) 0)
          \<lparr>nonce := m, hash := compute_hash L
             ((Block L (index (last (chain bc)) + 1) now d (hash (last (chain bc))) 0)
                \<lparr>nonce := m\<rparr>)\<rparr>]\<rparr>))" .
qed

lemma proof_of_work_agree:
  assumes eq: "\<And>j. compute_hash L (b1\<lparr>nonce := j\<rparr>) = compute_hash L (b2\<lparr>nonce := j\<rparr>)"
    and r: "proof_of_work L b1 = Some r"
  shows "\<exists>m. r = (b1\<lparr>nonce := m\<rparr>, compute_hash L (b1\<lparr>nonce := m\<rparr>)) \<and>
      proof_of_work L b2 = Some (b2\<lparr>nonce := m\<rparr>, compute_hash L (b1\<lparr>nonce := m\<rparr>))"
proof -
  from proof_of_work_result [OF r] obtain m where m: "0 \<le> m"
    and res: "r = (b1\<lparr>nonce := m\<rparr>, compute_hash L (b1\<lparr>nonce := m\<rparr>))"
    and ok: "startswith (compute_hash L (b1\<lparr>nonce := m\<rparr>)) target"
    and least: "\<forall>j. 0 \<le> j \<and> j < m \<longrightarrow> \<not> startswith (compute_hash L (b1\<lparr>nonce := j\<rparr>)) target"
    by blast
  from ok have ok2: "startswith (compute_hash L (b2\<lparr>nonce := m\<rparr>)) target"
    by (simp only: eq)
  from least have least2:
    "\<forall>j. 0 \<le> j \<and> j < m \<longrightarrow> \<not> startswith (compute_hash L (b2\<lparr>nonce := j\<rparr>)) target"
    by (simp only: eq)
  from proof_of_work_finds [OF m ok2 least2]
  have "proof_of_work L b2 = Some (b2\<lparr>nonce := m\<rparr>, compute_hash L (b1\<lparr>nonce := m\<rparr>))"
    by (simp only: eq)
  with res show ?thesis by blast
qed

text \<open>
  Claim C9. The result of \<^verbatim>\<open>proof_of_work\<close> does not depend on the nonce the block holds
  at the call: for two blocks with the same index, timestamp, data and previous hash,
  whatever their nonces (and stored hashes), it returns the same hash and leaves the
  same final nonce, or returns for neither.
\<close>

theorem proof_of_work_ignores_initial_nonce:
  assumes "index b1 = index b2" and "timestamp b1 = timestamp b2" and "data b1 = data b2"
    and "previous_hash b1 = previous_hash b2"
  shows "map_option (\<lambda>(b, h). (nonce b, h)) (proof_of_work L b1) =
         map_option (\<lambda>(b, h). (nonce b, h)) (proof_of_work L b2)"
proof -
  have eq: "compute_hash L (b1\<lparr>nonce := j\<rparr>) = compute_hash L (b2\<lparr>nonce := j\<rparr>)" for j
    using assms by (simp add: compute_hash_def)
  show ?thesis
  proof (cases "proof_of_work L b1")
    case (Some r)
    from proof_of_work_agree [of L b1 b2, OF eq Some] Some show ?thesis by auto
  next
    case None
    show ?thesis
    proof (cases "proof_of_work L b2")
      case None2: None
      with None show ?thesis by simp
    next
      case (Some r)
      from proof_of_work_agree [of L b2 b1, OF eq [symmetric] Some] None show ?thesis by auto
    qed
  qed
qed

lemma test_valid_nonce:
  "startswith (compute_hash test_lib (\<lparr>index = 1, timestamp = ''t1'', data = JStr ''a'',
      previous_hash = ''9f3a'', nonce = 0, hash = ''9f3a''\<rparr>\<lparr>nonce := 2\<rparr>)) target"
  by code_simp

lemma test_proof_of_work:
  "proof_of_work test_lib \<lparr>index = 1, timestamp = ''t1'', data = JStr ''a'',
      previous_hash = ''9f3a'', nonce = 0, hash = ''9f3a''\<rparr> =
   Some (\<lparr>index = 1, timestamp = ''t1'', data = JStr ''a'',
      previous_hash = ''9f3a'', nonce = 2, hash = ''9f3a''\<rparr>, ''00c4'')"
  by code_simp

lemma test_add_block:
  "add_block test_lib ''t1'' (JStr ''a'') (Blockchain test_lib ''t0'') =
   Some (Inr (\<lparr>index = 1, timestamp = ''t1'', data = JStr ''a'',
      previous_hash = ''9f3a'', nonce = 2, hash = ''00c4''\<rparr>,
     \<lparr>chain =
     [\<lparr>index = 0, timestamp = ''t0'', data = JStr ''Genesis Block'', previous_hash = ''0'',
        nonce = 0, hash = ''9f3a''\<rparr>,
      \<lparr>index = 1, timestamp = ''t1'', data = JStr ''a'', previous_hash = ''9f3a'',
        nonce = 2, hash = ''00c4''\<rparr>]\<rparr>))"
  by code_simp

text \<open>
  Mining the first block after the genesis block with the library instance above: the
  nonces 0 and 1 fail, the nonce 2 succeeds.
\<close>

theorem mining_terminates_witness:
  "startswith (compute_hash test_lib (\<lparr>index = 1, timestamp = ''t1'', data = JStr ''a'',
      previous_hash = ''9f3a'', nonce = 0, hash = ''9f3a''\<rparr>\<lparr>nonce := 2\<rparr>)) target \<and>
   proof_of_work test_lib \<lparr>index = 1, timestamp = ''t1'', data = JStr ''a'',
      previous_hash = ''9f3a'', nonce = 0, hash = ''9f3a''\<rparr> =
   Some (\<lparr>index = 1, timestamp = ''t1'', data = JStr ''a'',
      previous_hash = ''9f3a'', nonce = 2, hash = ''9f3a''\<rparr>, ''00c4'') \<and>
   add_block test_lib ''t1'' (JStr ''a'') (Blockchain test_lib ''t0'') =
   Some (Inr (\<lparr>index = 1, timestamp = ''t1'', data = JStr ''a'',
      previous_hash = ''9f3a'', nonce = 2, hash = ''00c4''\<rparr>,
     \<lparr>chain =
     [\<lparr>index = 0, timestamp = ''t0'', data = JStr ''Genesis Block'', previous_hash = ''0'',
        nonce = 0, hash = ''9f3a''\<rparr>,
      \<lparr>index = 1, timestamp = ''t1'', data = JStr ''a'', previous_hash = ''9f3a'',
        nonce = 2, hash = ''00c4''\<rparr>]\<rparr>))"
  using mining_terminates [of test_lib "\<lparr>index = 1, timestamp = ''t1'', data = JStr ''a'',
      previous_hash = ''9f3a'', nonce = 0, hash = ''9f3a''\<rparr>" "''t0''" "[]"
      "Blockchain test_lib ''t0''" "''t1''" "JStr ''a''"]
    test_valid_nonce test_proof_of_work test_add_block
  by blast

lemma test_proof_of_work_nonce_7:
  "map_option (\<lambda>(b, h). (nonce b, h))
     (proof_of_work test_lib \<lparr>index = 1, timestamp = ''t1'', data = JStr ''a'',
        previous_hash = ''9f3a'', nonce = 7, hash = ''5d21''\<rparr>) = Some (2, ''00c4'')"
  by code_simp

text \<open>
  Two such blocks, with initial nonces 7 and 100: both are mined to nonce 2.
\<close>

theorem proof_of_work_ignores_initial_nonce_witness:
  "map_option (\<lambda>(b, h). (nonce b, h))
     (proof_of_work test_lib \<lparr>index = 1, timestamp = ''t1'', data = JStr ''a'',
        previous_hash = ''9f3a'', nonce = 7, hash = ''5d21''\<rparr>) = Some (2, ''00c4'') \<and>
   map_option (\<lambda>(b, h). (nonce b, h))
     (proof_of_work test_lib \<lparr>index = 1, timestamp = ''t1'', data = JStr ''a'',
        previous_hash = ''9f3a'', nonce = 100, hash = ''e07b''\<rparr>) = Some (2, ''00c4'')"
  using proof_of_work_ignores_initial_nonce [of
      "\<lparr>index = 1, timestamp = ''t1'', data = JStr ''a'',
        previous_hash = ''9f3a'', nonce = 7, hash = ''5d21''\<rparr>"
      "\<lparr>index = 1, timestamp = ''t1'', data = JStr ''a'',
        previous_hash = ''9f3a'', nonce = 100, hash = ''e07b''\<rparr>" test_lib]
    test_proof_of_work_nonce_7
  by simp

end
